theory Spec2Isabelle
  imports Complex_Main "HOL-Library.Log_Nat"
begin

section \<open>Python values used by the layout optimizer\<close>

text \<open>
  The exceptions that the modelled functions can raise. A function that can raise
  returns \<open>py_error + 'a\<close>, with \<open>Inl\<close> for the exception.
\<close>

datatype py_error =
  ValueError | AttributeError | KeyError | IndexError | OverflowError | RecursionError

subsection \<open>Binary64 floating point\<close>

text \<open>
  A Python \<open>float\<close> is an IEEE 754 binary64 number: a finite value, an infinity or a
  NaN. Finite values are carried as reals; every arithmetic operation rounds its exact
  result to the nearest binary64 value, ties to the even significand (\<open>fl\<close>).
  The sign of a zero is not tracked; no function modelled here depends on it.
\<close>

datatype pyfloat = Fin real | PInf | NInf | NaN

definition rhe :: "real \<Rightarrow> int" where
  \<comment> \<open>round to the nearest integer, a tie to the even one (Python's \<open>round\<close>)\<close>
  "rhe x = (let f = \<lfloor>x\<rfloor>; d = x - of_int f in
     if d < 1/2 then f else if 1/2 < d then f + 1 else if even f then f else f + 1)"

definition expo :: "real \<Rightarrow> int" where
  \<comment> \<open>the binary exponent \<open>e\<close> of a non-zero real: \<open>2^e \<le> |r| < 2^(e+1)\<close>\<close>
  "expo r = (let a = \<bar>r\<bar> in
     if 1 \<le> a then int (floorlog 2 (nat \<lfloor>a\<rfloor>)) - 1
     else - int (floorlog 2 (nat (\<lceil>1 / a\<rceil> - 1))))"

definition pow2 :: "int \<Rightarrow> real" where
  "pow2 q = (if 0 \<le> q then 2 ^ nat q else 1 / 2 ^ nat (- q))"

definition fl :: "real \<Rightarrow> real" where
  \<comment> \<open>53 significant bits; below \<open>2^-1022\<close> the spacing stays \<open>2^-1074\<close> (subnormals)\<close>
  "fl r = (if r = 0 then 0 else
     let q = max (expo r - 52) (- 1074) in of_int (rhe (r / pow2 q)) * pow2 q)"

definition ulp_exp :: "real \<Rightarrow> int" where
  \<comment> \<open>the exponent of the spacing of the binary64 values around \<open>r\<close>\<close>
  "ulp_exp r = max (expo r - 52) (- 1074)"

definition fmax :: real where
  \<comment> \<open>the first power of two that is no longer a finite binary64 value\<close>
  "fmax = 2 ^ 1024"

definition to_float :: "real \<Rightarrow> pyfloat" where
  \<comment> \<open>the binary64 result of an operation whose exact result is \<open>r\<close>\<close>
  "to_float r = (let v = fl r in
     if fmax \<le> v then PInf else if v \<le> - fmax then NInf else Fin v)"

definition float_of_int :: "int \<Rightarrow> py_error + pyfloat" where
  \<comment> \<open>the implicit conversion of an \<open>int\<close> operand; too large an \<open>int\<close> raises\<close>
  "float_of_int n = (case to_float (of_int n) of
     Fin v \<Rightarrow> Inr (Fin v) | _ \<Rightarrow> Inl OverflowError)"

definition int_truediv :: "int \<Rightarrow> int \<Rightarrow> py_error + pyfloat" where
  \<comment> \<open>\<open>p / q\<close> on two \<open>int\<close>s with \<open>q \<noteq> 0\<close>: the correctly rounded quotient\<close>
  "int_truediv p q = (case to_float (of_int p / of_int q) of
     Fin v \<Rightarrow> Inr (Fin v) | _ \<Rightarrow> Inl OverflowError)"

fun fmul :: "pyfloat \<Rightarrow> pyfloat \<Rightarrow> pyfloat" where
  "fmul (Fin x) (Fin y) = to_float (x * y)"
| "fmul NaN _ = NaN"
| "fmul _ NaN = NaN"
| "fmul (Fin x) PInf = (if x = 0 then NaN else if 0 < x then PInf else NInf)"
| "fmul (Fin x) NInf = (if x = 0 then NaN else if 0 < x then NInf else PInf)"
| "fmul PInf (Fin y) = (if y = 0 then NaN else if 0 < y then PInf else NInf)"
| "fmul NInf (Fin y) = (if y = 0 then NaN else if 0 < y then NInf else PInf)"
| "fmul PInf PInf = PInf"
| "fmul PInf NInf = NInf"
| "fmul NInf PInf = NInf"
| "fmul NInf NInf = PInf"

fun fadd :: "pyfloat \<Rightarrow> pyfloat \<Rightarrow> pyfloat" where
  "fadd (Fin x) (Fin y) = to_float (x + y)"
| "fadd NaN _ = NaN"
| "fadd _ NaN = NaN"
| "fadd PInf NInf = NaN"
| "fadd NInf PInf = NaN"
| "fadd PInf _ = PInf"
| "fadd _ PInf = PInf"
| "fadd NInf _ = NInf"
| "fadd _ NInf = NInf"

fun fneg :: "pyfloat \<Rightarrow> pyfloat" where
  "fneg (Fin x) = Fin (- x)"
| "fneg PInf = NInf"
| "fneg NInf = PInf"
| "fneg NaN = NaN"

definition fsub :: "pyfloat \<Rightarrow> pyfloat \<Rightarrow> pyfloat" where
  "fsub x y = fadd x (fneg y)"

fun flt :: "pyfloat \<Rightarrow> pyfloat \<Rightarrow> bool" where
  \<comment> \<open>\<open>x < y\<close>; every comparison with a NaN is false\<close>
  "flt NaN _ = False"
| "flt _ NaN = False"
| "flt (Fin x) (Fin y) = (x < y)"
| "flt (Fin x) PInf = True"
| "flt NInf (Fin y) = True"
| "flt NInf PInf = True"
| "flt _ _ = False"

fun fle :: "pyfloat \<Rightarrow> pyfloat \<Rightarrow> bool" where
  \<comment> \<open>\<open>x <= y\<close>\<close>
  "fle NaN _ = False"
| "fle _ NaN = False"
| "fle (Fin x) (Fin y) = (x \<le> y)"
| "fle NInf _ = True"
| "fle _ PInf = True"
| "fle _ _ = False"

fun nonneg :: "pyfloat \<Rightarrow> bool" where
  \<comment> \<open>a float that is zero, positive or plus infinity\<close>
  "nonneg (Fin x) = (0 \<le> x)"
| "nonneg PInf = True"
| "nonneg _ = False"

fun py_round :: "pyfloat \<Rightarrow> py_error + int" where
  \<comment> \<open>\<open>round(x)\<close> with one argument\<close>
  "py_round (Fin x) = Inr (rhe x)"
| "py_round NaN = Inl ValueError"
| "py_round _ = Inl OverflowError"

section \<open>Parameter codec (layout/optimizer.py)\<close>

record opt_params =
  "value" :: "int list"
  low :: int
  high :: int

definition from_fraction :: "pyfloat \<Rightarrow> int \<Rightarrow> int \<Rightarrow> py_error + int" where
  "from_fraction x a b =
     (if a = b then Inr a
      else if a < b then
        (case float_of_int (b - a) of Inl e \<Rightarrow> Inl e | Inr w \<Rightarrow>
         case float_of_int a of Inl e \<Rightarrow> Inl e | Inr fa \<Rightarrow>
           py_round (fadd fa (fmul x w)))
      else Inl ValueError)"

definition to_fraction :: "int \<Rightarrow> int \<Rightarrow> int \<Rightarrow> py_error + pyfloat" where
  "to_fraction x a b =
     (if a = b then Inr (Fin (1/2))
      else if a < b then int_truediv (x - a) (b - a)
      else Inl ValueError)"

fun map_err :: "('a \<Rightarrow> py_error + 'b) \<Rightarrow> 'a list \<Rightarrow> py_error + 'b list" where
  \<comment> \<open>a comprehension whose element expression can raise\<close>
  "map_err f [] = Inr []"
| "map_err f (x # xs) =
     (case f x of Inl e \<Rightarrow> Inl e
      | Inr y \<Rightarrow> (case map_err f xs of Inl e \<Rightarrow> Inl e | Inr ys \<Rightarrow> Inr (y # ys)))"

definition params2array :: "opt_params \<Rightarrow> py_error + pyfloat list" where
  "params2array x = map_err (\<lambda>v. to_fraction v (low x) (high x)) (value x)"

definition array2tuple :: "pyfloat list \<Rightarrow> opt_params \<Rightarrow> py_error + int list" where
  "array2tuple x base = map_err (\<lambda>v. from_fraction v (low base) (high base)) x"

definition array2params :: "pyfloat list \<Rightarrow> opt_params \<Rightarrow> py_error + opt_params" where
  "array2params x base =
     (case array2tuple x base of Inl e \<Rightarrow> Inl e
      | Inr t \<Rightarrow> Inr \<lparr>value = t, low = low base, high = high base\<rparr>)"

section \<open>Two-stage optimizer (layout/optimizer.py)\<close>

subsection \<open>The problem and the minimizer\<close>

text \<open>
  The three hooks that a concrete layout problem overrides. \<open>stage2parameters\<close> is
  declared to return an optional parameter set, and \<open>validity_error\<close> is handed whatever
  it returned.
\<close>

record problem =
  score :: "int list \<Rightarrow> int list \<Rightarrow> pyfloat"
  stage2parameters :: "int list \<Rightarrow> opt_params option"
  validity_error :: "opt_params option \<Rightarrow> pyfloat"

text \<open>
  The bounded derivative-free minimizer is a library routine outside the repository. It is
  a parameter of the model: given the start vector it is a strategy that repeatedly asks
  for the objective at a point, is told what the objective returned (a float, or
  \<open>None\<close>), and finally stops with a success flag, a point and a value, or raises.
  Every strategy is finite, as the routine bounds its own iterations.
\<close>

datatype minimizer =
    Stop bool "pyfloat list" pyfloat
  | Ask "pyfloat list" "pyfloat option \<Rightarrow> minimizer"
  | Abort py_error

text \<open>
  What a \<open>run\<close> call changes: the dictionary \<open>best_combos\<close>. The state also keeps
  two logs, so that the properties below can say which collaborator was invoked: the
  coarse tuples for which stage 2 was started, and the argument pairs with which the
  caller's \<open>score\<close> was called.
\<close>

record run_state =
  best_combos :: "int list \<rightharpoonup> (pyfloat option \<times> opt_params option)"
  stage2_runs :: "int list list"
  score_calls :: "(int list \<times> int list) list"

definition init_state :: run_state where
  "init_state = \<lparr>best_combos = Map.empty, stage2_runs = [], score_calls = []\<rparr>"

type_synonym objective = "int list \<Rightarrow> run_state \<Rightarrow> py_error + (pyfloat option \<times> run_state)"

primrec drive :: "minimizer \<Rightarrow> (pyfloat list \<Rightarrow> run_state \<Rightarrow> py_error + (pyfloat option \<times> run_state))
    \<Rightarrow> run_state \<Rightarrow> py_error + ((bool \<times> pyfloat list \<times> pyfloat) \<times> run_state)" where
  "drive (Stop ok x f) = (\<lambda>adapter s. Inr ((ok, x, f), s))"
| "drive (Abort e) = (\<lambda>adapter s. Inl e)"
| "drive (Ask x k) = (\<lambda>adapter s.
     case adapter x s of Inl e \<Rightarrow> Inl e
     | Inr (v, s') \<Rightarrow> drive (k v) adapter s')"


subsection \<open>The optimizer\<close>

definition adapter :: "objective \<Rightarrow> opt_params \<Rightarrow> pyfloat list \<Rightarrow> run_state
    \<Rightarrow> py_error + (pyfloat option \<times> run_state)" where
  \<comment> \<open>the inner function of \<open>_minimize\<close>: decode the vector, then call the objective\<close>
  "adapter func x_init x s =
     (case array2tuple x x_init of Inl e \<Rightarrow> Inl e | Inr t \<Rightarrow> func t s)"

definition minimize :: "(pyfloat list \<Rightarrow> minimizer) \<Rightarrow> objective \<Rightarrow> opt_params \<Rightarrow> run_state
    \<Rightarrow> py_error + ((pyfloat option \<times> opt_params option) \<times> run_state)" where
  \<comment> \<open>\<open>_minimize\<close>\<close>
  "minimize mz func x_init s =
     (case params2array x_init of Inl e \<Rightarrow> Inl e
      | Inr x0 \<Rightarrow>
         (case drive (mz x0) (adapter func x_init) s of
            Inl e \<Rightarrow> Inl e
          | Inr ((success, x, f), s') \<Rightarrow>
              if success
              then (case array2params x x_init of Inl e \<Rightarrow> Inl e
                    | Inr p \<Rightarrow> Inr ((Some f, Some p), s'))
              else Inr ((None, None), s')))"

definition penalty :: "pyfloat \<Rightarrow> pyfloat" where
  \<comment> \<open>\<open>1e6 * (1 + err * err)\<close>\<close>
  "penalty err = fmul (Fin 1000000) (fadd (Fin 1) (fmul err err))"

definition stage2func :: "problem \<Rightarrow> int list \<Rightarrow> opt_params \<Rightarrow> objective" where
  "stage2func prob params1 params2init x2 s =
     (let err = validity_error prob (Some \<lparr>value = x2, low = low params2init, high = high params2init\<rparr>)
      in if flt (Fin 0) err then Inr (Some (penalty err), s)
         else Inr (Some (score prob params1 x2),
                   s\<lparr>score_calls := score_calls s @ [(params1, x2)]\<rparr>))"

definition stage2optimize :: "(pyfloat list \<Rightarrow> minimizer) \<Rightarrow> problem \<Rightarrow> int list \<Rightarrow> run_state
    \<Rightarrow> py_error + ((pyfloat option \<times> opt_params option) \<times> run_state)" where
  \<comment> \<open>\<open>_stage2optimize\<close>; a missing initial guess has no \<open>value\<close> to start from\<close>
  "stage2optimize mz prob params1 s0 =
     (let s = s0\<lparr>stage2_runs := stage2_runs s0 @ [params1]\<rparr>;
          params2init = stage2parameters prob params1;
          err = validity_error prob params2init
      in if flt (Fin 0) err then Inr ((Some (penalty err), None), s)
         else case params2init of
                None \<Rightarrow> Inl AttributeError
              | Some p2 \<Rightarrow> minimize mz (stage2func prob params1 p2) p2 s)"

definition stage1func :: "(pyfloat list \<Rightarrow> minimizer) \<Rightarrow> problem \<Rightarrow> objective" where
  "stage1func mz prob params1 s =
     (case stage2optimize mz prob params1 s of Inl e \<Rightarrow> Inl e
      | Inr ((f, params2), s') \<Rightarrow>
          Inr (f, s'\<lparr>best_combos := (best_combos s')(params1 \<mapsto> (f, params2))\<rparr>))"

definition run_from :: "(pyfloat list \<Rightarrow> minimizer) \<Rightarrow> problem \<Rightarrow> opt_params \<Rightarrow> run_state
    \<Rightarrow> py_error + ((pyfloat option \<times> opt_params option \<times> opt_params option) \<times> run_state)" where
  \<comment> \<open>\<open>run\<close>; \<open>if opt1\<close> is false for \<open>None\<close> and, by \<open>OptParams.__len__\<close>, for an empty tuple\<close>
  "run_from mz prob x1init s =
     (case minimize mz (stage1func mz prob) x1init s of Inl e \<Rightarrow> Inl e
      | Inr ((_, opt1), s') \<Rightarrow>
         (case opt1 of
            None \<Rightarrow> Inr ((None, None, None), s')
          | Some o1 \<Rightarrow>
              if value o1 = [] then Inr ((None, None, None), s')
              else (case best_combos s' (value o1) of
                      None \<Rightarrow> Inl KeyError
                    | Some (f, opt2) \<Rightarrow> Inr ((f, Some o1, opt2), s'))))"


definition run :: "(pyfloat list \<Rightarrow> minimizer) \<Rightarrow> problem \<Rightarrow> opt_params
    \<Rightarrow> py_error + (pyfloat option \<times> opt_params option \<times> opt_params option)" where
  "run mz prob x1init =
     (case run_from mz prob x1init init_state of Inl e \<Rightarrow> Inl e | Inr (r, s) \<Rightarrow> Inr r)"

section \<open>Placed content (placed.py)\<close>

subsection \<open>Rectangles\<close>

text \<open>
  Modelled from the spec: the class \<open>Rect\<close> of the module \<open>common\<close>, which the
  placement code imports. A rectangle is given by its four edges in whole page units; its
  width and height are the differences of opposite edges, \<open>move\<close> translates all four
  edges, and the union of rectangles is their bounding box.
\<close>

record rect =
  r_left :: int
  r_top :: int
  r_right :: int
  r_bottom :: int

definition width :: "rect \<Rightarrow> int" where
  "width r = r_right r - r_left r"

definition height :: "rect \<Rightarrow> int" where
  "height r = r_bottom r - r_top r"

definition rect_move :: "int \<Rightarrow> int \<Rightarrow> rect \<Rightarrow> rect" where
  "rect_move dx dy r = \<lparr>r_left = r_left r + dx, r_top = r_top r + dy,
     r_right = r_right r + dx, r_bottom = r_bottom r + dy\<rparr>"

definition rect_join :: "rect \<Rightarrow> rect \<Rightarrow> rect" where
  "rect_join a b = \<lparr>r_left = min (r_left a) (r_left b), r_top = min (r_top a) (r_top b),
     r_right = max (r_right a) (r_right b), r_bottom = max (r_bottom a) (r_bottom b)\<rparr>"

fun rect_union :: "rect \<Rightarrow> rect list \<Rightarrow> rect" where
  "rect_union r [] = r"
| "rect_union r (x # xs) = rect_union (rect_join r x) xs"

subsection \<open>Placement nodes\<close>

text \<open>
  The attributes that \<open>PlacedContent.__init__\<close> sets. The two attributes that the
  unused-width scan reads form the base record, so that the scan also runs on the bare
  \<open>(requested, unused_width)\<close> pairs of the repository's tests. The drawing canvas is
  kept only as its debug flag. Break counts and the variance are whole numbers in every
  producer of this module.
\<close>

record item =
  requested :: rect
  unused_width :: int

record attrs = item +
  actual :: rect
  ok_breaks :: int
  bad_breaks :: int
  internal_variance :: int
  page_break_before :: bool
  pdf_debug :: bool

datatype leaf_kind = ParagraphContent | ImageContent | TableContent | RectContent | ErrorContent

text \<open>
  A node as a value: what it holds when it is constructed and read. \<open>EmptyGroup\<close> is the
  group object whose constructor returned before the base initialisation: it has the
  (empty) child list and none of the attributes.
\<close>

datatype placed =
    Leaf leaf_kind attrs
  | PathContent attrs "int \<times> int"
  | Group attrs "placed list"
  | EmptyGroup

definition unused_requested_width :: "rect \<Rightarrow> rect \<Rightarrow> int" where
  "unused_requested_width req act = width req - width act"

definition base_init :: "rect \<Rightarrow> rect \<Rightarrow> bool \<Rightarrow> attrs" where
  \<comment> \<open>\<open>PlacedContent.__init__\<close>\<close>
  "base_init req act dbg = \<lparr>requested = req, unused_width = unused_requested_width req act,
     actual = act, ok_breaks = 0, bad_breaks = 0, internal_variance = 0,
     page_break_before = False, pdf_debug = dbg\<rparr>"

fun get_attrs :: "placed \<Rightarrow> py_error + attrs" where
  \<comment> \<open>reading an attribute of the node; the attributes of an empty group do not exist\<close>
  "get_attrs (Leaf k a) = Inr a"
| "get_attrs (PathContent a off) = Inr a"
| "get_attrs (Group a g) = Inr a"
| "get_attrs EmptyGroup = Inl AttributeError"

fun truthy :: "placed option \<Rightarrow> bool" where
  \<comment> \<open>\<open>if p\<close>: \<open>None\<close> is false, a group is judged by its \<open>__len__\<close>, any other object is true\<close>
  "truthy None = False"
| "truthy (Some EmptyGroup) = False"
| "truthy (Some (Group a g)) = (g \<noteq> [])"
| "truthy (Some _) = True"

definition move_attrs :: "int \<Rightarrow> int \<Rightarrow> attrs \<Rightarrow> attrs" where
  \<comment> \<open>\<open>PlacedContent.move\<close>\<close>
  "move_attrs dx dy a = a\<lparr>actual := rect_move dx dy (actual a),
     requested := rect_move dx dy (requested a)\<rparr>"

text \<open>
  \<open>move\<close> assigns to the two rectangles of the object it is called on and then calls
  \<open>move\<close> on every entry of that object's child list. Objects are shared, not copied:
  one child object can be listed twice, or in two groups. So \<open>move\<close> is modelled on a
  store of objects, in which a group holds the references of its children and an
  assignment changes the object at one reference. A group whose attributes are absent
  is the group whose constructor returned early. The first argument bounds the depth of
  the nested calls, as the interpreter's recursion limit does.
\<close>

type_synonym ref = nat

datatype pobj =
    PLeaf leaf_kind attrs
  | PPath attrs "int \<times> int"
  | PGroup "attrs option" "ref list"

type_synonym store = "ref \<Rightarrow> pobj"

fun as_object :: "placed \<Rightarrow> ref list \<Rightarrow> pobj" where
  \<comment> \<open>the object that a node is, given the references of its children\<close>
  "as_object (Leaf k a) cs = PLeaf k a"
| "as_object (PathContent a off) cs = PPath a off"
| "as_object (Group a g) cs = PGroup (Some a) cs"
| "as_object EmptyGroup cs = PGroup None []"

fun move :: "nat \<Rightarrow> int \<Rightarrow> int \<Rightarrow> ref \<Rightarrow> store \<Rightarrow> py_error + store"
  and move_all :: "nat \<Rightarrow> int \<Rightarrow> int \<Rightarrow> ref list \<Rightarrow> store \<Rightarrow> py_error + store" where
  "move 0 dx dy r h = Inl RecursionError"
| "move (Suc n) dx dy r h =
     (case h r of
        PLeaf k a \<Rightarrow> Inr (h(r := PLeaf k (move_attrs dx dy a)))
      | PPath a off \<Rightarrow>
          Inr (h(r := PPath (move_attrs dx dy a) (fst off + dx, snd off + dy)))
      | PGroup None g \<Rightarrow> Inl AttributeError
      | PGroup (Some a) g \<Rightarrow>
          move_all n dx dy g (h(r := PGroup (Some (move_attrs dx dy a)) g)))"
| "move_all n dx dy [] h = Inr h"
| "move_all n dx dy (c # cs) h =
     (case move n dx dy c h of Inl e \<Rightarrow> Inl e | Inr h' \<Rightarrow> move_all n dx dy cs h')"

fun object_after :: "ref \<Rightarrow> py_error + store \<Rightarrow> py_error + pobj" where
  \<comment> \<open>the object at a reference once an operation on the store has returned\<close>
  "object_after r (Inl e) = Inl e"
| "object_after r (Inr h) = Inr (h r)"

definition error_from_size_base :: "attrs \<Rightarrow> pyfloat \<Rightarrow> pyfloat \<Rightarrow> py_error + pyfloat" where
  \<comment> \<open>\<open>PlacedContent.error_from_size\<close>: an \<open>int\<close> times a \<open>float\<close> weight\<close>
  "error_from_size_base a multiplier_bad multiplier_good =
     (if unused_width a < 0
      then (case float_of_int (- unused_width a) of Inl e \<Rightarrow> Inl e
            | Inr u \<Rightarrow> Inr (fmul u multiplier_bad))
      else (case float_of_int (unused_width a) of Inl e \<Rightarrow> Inl e
            | Inr u \<Rightarrow> Inr (fmul u multiplier_good)))"

definition error_from_size_error :: "attrs \<Rightarrow> py_error + pyfloat" where
  \<comment> \<open>\<open>ErrorContent.error_from_size\<close>: \<open>1e9 - width * height\<close>, the product an \<open>int\<close>\<close>
  "error_from_size_error a =
     (case float_of_int (width (actual a) * height (actual a)) of Inl e \<Rightarrow> Inl e
      | Inr area \<Rightarrow> Inr (fsub (Fin 1000000000) area))"

fun error_from_size :: "placed \<Rightarrow> pyfloat \<Rightarrow> pyfloat \<Rightarrow> py_error + pyfloat" where
  "error_from_size (Leaf ErrorContent a) mb mg = error_from_size_error a"
| "error_from_size (Leaf k a) mb mg = error_from_size_base a mb mg"
| "error_from_size (PathContent a off) mb mg = error_from_size_base a mb mg"
| "error_from_size (Group a g) mb mg = error_from_size_base a mb mg"
| "error_from_size EmptyGroup mb mg = Inl AttributeError"

text \<open>
  Drawing goes to the canvas, which is outside this module. The model records which
  rectangles are handed to the canvas, in order; a group first reads its canvas's debug
  flag and then draws its children.
\<close>

fun draw :: "placed \<Rightarrow> py_error + rect list"
  and draw_all :: "placed list \<Rightarrow> py_error + rect list" where
  "draw (Leaf k a) = Inr [actual a]"
| "draw (PathContent a off) = Inr [actual a]"
| "draw EmptyGroup = Inl AttributeError"
| "draw (Group a g) =
     (case draw_all g of Inl e \<Rightarrow> Inl e
      | Inr rs \<Rightarrow> Inr ((if pdf_debug a then [actual a] else []) @ rs))"
| "draw_all [] = Inr []"
| "draw_all (p # ps) =
     (case draw p of Inl e \<Rightarrow> Inl e
      | Inr rs \<Rightarrow> (case draw_all ps of Inl e \<Rightarrow> Inl e | Inr rs' \<Rightarrow> Inr (rs @ rs')))"

subsection \<open>Unused width of a group\<close>

definition set_used :: "nat list \<Rightarrow> int \<Rightarrow> py_error + nat list" where
  \<comment> \<open>\<open>used[i] = 1\<close> on a bytearray: an index below zero counts back from the end\<close>
  "set_used used i =
     (if 0 \<le> i \<and> i < int (length used) then Inr (used[nat i := 1])
      else if i < 0 \<and> - int (length used) \<le> i then Inr (used[nat (int (length used) + i) := 1])
      else Inl IndexError)"

fun mark_range :: "nat list \<Rightarrow> int list \<Rightarrow> py_error + nat list" where
  \<comment> \<open>the inner \<open>for i in range(..)\<close> loop\<close>
  "mark_range used [] = Inr used"
| "mark_range used (i # is) =
     (case set_used used i of Inl e \<Rightarrow> Inl e | Inr used' \<Rightarrow> mark_range used' is)"

fun mark_items :: "int \<Rightarrow> nat list \<Rightarrow> ('a item_scheme) list \<Rightarrow> py_error + nat list" where
  \<comment> \<open>the loop \<open>for g in group\<close> of \<open>_unused_horizontal_strip\<close>\<close>
  "mark_items ox used [] = Inr used"
| "mark_items ox used (g # gs) =
     (let d = unused_width g;
          left = r_left (requested g) + d div 2;
          right = r_right (requested g) - d + d div 2
      in case mark_range used [left - ox .. right - ox - 1] of
           Inl e \<Rightarrow> Inl e
         | Inr used' \<Rightarrow> mark_items ox used' gs)"

definition unused_horizontal_strip :: "('a item_scheme) list \<Rightarrow> rect \<Rightarrow> py_error + int" where
  "unused_horizontal_strip grp bounds =
     (if width bounds < 0 then Inl ValueError
      else case mark_items (r_left bounds) (replicate (nat (width bounds)) 0) grp of
             Inl e \<Rightarrow> Inl e
           | Inr used \<Rightarrow> Inr (width bounds - int (sum_list used)))"

text \<open>
  The scan of \<open>calculate_unused_width_for_group\<close>. \<open>rest\<close> is \<open>items[idx:]\<close>; one
  round of the outer loop takes the item at \<open>idx\<close>, skips the following items whose top lies
  above its bottom edge, and evaluates the strip. The list handed to the strip is the
  whole sorted list \<open>items\<close>, as in the source.
\<close>

function scan :: "('a item_scheme) list \<Rightarrow> rect \<Rightarrow> int \<Rightarrow> ('a item_scheme) list
    \<Rightarrow> py_error + int" where
  "scan items bounds unused [] = Inr unused"
| "scan items bounds unused (x # rest) =
     (let lower = r_bottom (requested x);
          across = x # takeWhile (\<lambda>y. r_top (requested y) < lower) rest;
          rest' = dropWhile (\<lambda>y. r_top (requested y) < lower) rest
      in case unused_horizontal_strip items bounds of
           Inl e \<Rightarrow> Inl e
         | Inr u \<Rightarrow> scan items bounds (min unused u) rest')"
  by pat_completeness auto
termination
  by (relation "measure (\<lambda>(items, bounds, unused, rest). length rest)")
     (auto simp: length_dropWhile_le less_Suc_eq_le)

definition calculate_unused_width_for_group :: "('a item_scheme) list \<Rightarrow> rect \<Rightarrow> py_error + int" where
  "calculate_unused_width_for_group grp bounds =
     (let items = sort_key (\<lambda>x. r_top (requested x)) grp
      in scan items bounds (width bounds) items)"

text \<open>
  The same scan as the specification words it: the strip of a band is evaluated on the
  children of that band only.
\<close>

function spec_scan :: "rect \<Rightarrow> int \<Rightarrow> ('a item_scheme) list \<Rightarrow> py_error + int" where
  "spec_scan bounds unused [] = Inr unused"
| "spec_scan bounds unused (x # rest) =
     (let lower = r_bottom (requested x);
          across = x # takeWhile (\<lambda>y. r_top (requested y) < lower) rest;
          rest' = dropWhile (\<lambda>y. r_top (requested y) < lower) rest
      in case unused_horizontal_strip across bounds of
           Inl e \<Rightarrow> Inl e
         | Inr u \<Rightarrow> spec_scan bounds (min unused u) rest')"
  by pat_completeness auto
termination
  by (relation "measure (\<lambda>(bounds, unused, rest). length rest)")
     (auto simp: length_dropWhile_le less_Suc_eq_le)

definition spec_unused_width_for_group :: "('a item_scheme) list \<Rightarrow> rect \<Rightarrow> py_error + int" where
  "spec_unused_width_for_group grp bounds =
     spec_scan bounds (width bounds) (sort_key (\<lambda>x. r_top (requested x)) grp)"

subsection \<open>Constructing a group\<close>

fun parent_sized :: "rect \<Rightarrow> placed \<Rightarrow> placed" where
  "parent_sized bounds (Leaf ImageContent a) =
     Leaf ImageContent (a\<lparr>ok_breaks := max 0 ((height bounds - height (actual a)) div 5)\<rparr>)"
| "parent_sized bounds (Group a g) =
     Group a (map (parent_sized (if 1 < length g then requested a else bounds)) g)"
| "parent_sized bounds p = p"

definition group_init :: "placed option list \<Rightarrow> rect \<Rightarrow> rect option \<Rightarrow> py_error + placed" where
  \<comment> \<open>\<open>PlacedGroupContent.__init__\<close>; reading a child's attribute can fail only on an empty group\<close>
  "group_init children req act_opt =
     (let grp = map the (filter truthy children) in
      case those (map (\<lambda>p. case get_attrs p of Inl e \<Rightarrow> None | Inr a \<Rightarrow> Some a) grp) of
        None \<Rightarrow> Inl AttributeError
      | Some [] \<Rightarrow> Inr EmptyGroup
      | Some (a1 # as) \<Rightarrow>
         (let act = (case act_opt of Some r \<Rightarrow> r
                     | None \<Rightarrow> rect_union (actual a1) (map actual as));
              a0 = (base_init req act (pdf_debug a1))
                     \<lparr>ok_breaks := sum_list (map ok_breaks (a1 # as)),
                      bad_breaks := sum_list (map bad_breaks (a1 # as))\<rparr>
          in case (if width req < width act then Inr (width req - width act)
                   else calculate_unused_width_for_group (a1 # as) req) of
               Inl e \<Rightarrow> Inl e
             | Inr u \<Rightarrow> Inr (Group (a0\<lparr>unused_width := u\<rparr>) (map (parent_sized req) grp))))"

subsection \<open>What a move is required to do\<close>

text \<open>
  The requirement on \<open>move\<close>, as the specification words it: both rectangles of an
  object are translated by the offsets and its measurements stay as they are; this is
  asked of the object moved and of every object below it.
\<close>

definition attrs_moved :: "int \<Rightarrow> int \<Rightarrow> attrs \<Rightarrow> attrs \<Rightarrow> bool" where
  "attrs_moved dx dy a a' \<longleftrightarrow>
     requested a' = rect_move dx dy (requested a) \<and>
     actual a' = rect_move dx dy (actual a) \<and>
     ok_breaks a' = ok_breaks a \<and> bad_breaks a' = bad_breaks a \<and>
     unused_width a' = unused_width a \<and> internal_variance a' = internal_variance a"

fun obj_moved :: "int \<Rightarrow> int \<Rightarrow> pobj \<Rightarrow> pobj \<Rightarrow> bool" where
  \<comment> \<open>an object after a move: the same kind, the same children, its attributes moved\<close>
  "obj_moved dx dy (PLeaf k a) (PLeaf k' a') = (k = k' \<and> attrs_moved dx dy a a')"
| "obj_moved dx dy (PPath a off) (PPath a' off') = attrs_moved dx dy a a'"
| "obj_moved dx dy (PGroup (Some a) g) (PGroup (Some a') g') =
     (g = g' \<and> attrs_moved dx dy a a')"
| "obj_moved dx dy _ _ = False"

fun initialised :: "pobj \<Rightarrow> bool" where
  \<comment> \<open>the object went through the base initialisation\<close>
  "initialised (PGroup None g) = False"
| "initialised _ = True"

fun reach :: "nat \<Rightarrow> store \<Rightarrow> ref \<Rightarrow> ref list option"
  and reach_all :: "nat \<Rightarrow> store \<Rightarrow> ref list \<Rightarrow> ref list option" where
  \<comment> \<open>the objects that a move from \<open>r\<close> calls \<open>move\<close> on, in call order, each as often as
      it is called; \<open>None\<close> when the depth bound is too small\<close>
  "reach 0 h r = None"
| "reach (Suc n) h r =
     (case h r of
        PGroup a g \<Rightarrow> (case reach_all n h g of None \<Rightarrow> None | Some rs \<Rightarrow> Some (r # rs))
      | _ \<Rightarrow> Some [r])"
| "reach_all n h [] = Some []"
| "reach_all n h (c # cs) =
     (case reach n h c of None \<Rightarrow> None
      | Some xs \<Rightarrow> (case reach_all n h cs of None \<Rightarrow> None | Some ys \<Rightarrow> Some (xs @ ys)))"

section \<open>Example inputs\<close>

text \<open>
  A minimizer that evaluates the start vector once and reports that it did not converge,
  one that evaluates it once and reports success with the value it was told, and two
  problems with a single coarse and a single fine parameter: one whose score is always
  NaN, one whose score is always 3.
\<close>

definition failing_minimizer :: "pyfloat list \<Rightarrow> minimizer" where
  "failing_minimizer x0 = Ask x0 (\<lambda>v. Stop False x0 NaN)"

definition one_shot_minimizer :: "pyfloat list \<Rightarrow> minimizer" where
  "one_shot_minimizer x0 = Ask x0 (\<lambda>v. Stop True x0 (case v of Some f \<Rightarrow> f | None \<Rightarrow> NaN))"




definition nan_problem :: problem where
  "nan_problem = \<lparr>score = (\<lambda>x1 x2. NaN),
     stage2parameters = (\<lambda>x1. Some \<lparr>value = [2], low = 0, high = 5\<rparr>),
     validity_error = (\<lambda>p. Fin 0)\<rparr>"


text \<open>A problem whose every parameter set has validity error 1.\<close>

definition always_invalid :: problem where
  "always_invalid = \<lparr>score = (\<lambda>x1 x2. Fin 0),
     stage2parameters = (\<lambda>x1. Some \<lparr>value = [2], low = 0, high = 5\<rparr>),
     validity_error = (\<lambda>p. Fin 1)\<rparr>"

text \<open>
  Two stores. In the first, the group at reference 0 lists a rectangle (reference 1) and a
  path (reference 2). In the second, the group at reference 0 lists the one rectangle at
  reference 1 twice.
\<close>

definition unit_leaf :: pobj where
  "unit_leaf = PLeaf RectContent (base_init \<lparr>r_left = 0, r_top = 0, r_right = 8, r_bottom = 4\<rparr>
     \<lparr>r_left = 0, r_top = 0, r_right = 8, r_bottom = 4\<rparr> False)"

definition group_attrs :: attrs where
  "group_attrs = base_init \<lparr>r_left = 0, r_top = 0, r_right = 10, r_bottom = 10\<rparr>
     \<lparr>r_left = 0, r_top = 0, r_right = 8, r_bottom = 4\<rparr> False"

definition tree_store :: store where
  "tree_store = (\<lambda>q. unit_leaf)
     (0 := PGroup (Some group_attrs) [1, 2],
      2 := PPath (base_init \<lparr>r_left = 1, r_top = 1, r_right = 2, r_bottom = 2\<rparr>
                    \<lparr>r_left = 1, r_top = 1, r_right = 2, r_bottom = 2\<rparr> False) (0, 0))"

definition shared_store :: store where
  "shared_store = (\<lambda>q. unit_leaf)(0 := PGroup (Some group_attrs) [1, 1])"

section \<open>Properties of binary64 rounding\<close>

lemma pow2_powr: "pow2 q = 2 powr (real_of_int q)"
  by (simp add: pow2_def powr_int)

lemma pow2_pos: "0 < pow2 q"
  by (simp add: pow2_powr)

lemma pow2_add: "pow2 (a + b) = pow2 a * pow2 b"
  by (simp add: pow2_powr powr_add)

lemma pow2_le: "a \<le> b \<Longrightarrow> pow2 a \<le> pow2 b"
  by (simp add: pow2_powr)

lemma pow2_less: "a < b \<Longrightarrow> pow2 a < pow2 b"
  by (simp add: pow2_powr)

lemma pow2_nat: "pow2 (int n) = 2 ^ n"
  by (simp add: pow2_def)

lemma pow2_diff: "pow2 a / pow2 b = pow2 (a - b)"
  using pow2_add [of "a - b" b] pow2_pos [of b] by (simp add: field_simps)

lemma expo_bounds:
  assumes "r \<noteq> 0"
  shows "pow2 (expo r) \<le> \<bar>r\<bar> \<and> \<bar>r\<bar> < pow2 (expo r + 1)"
proof (cases "1 \<le> \<bar>r\<bar>")
  case True
  define n where "n = nat \<lfloor>\<bar>r\<bar>\<rfloor>"
  have fr: "0 \<le> \<lfloor>\<bar>r\<bar>\<rfloor>" by simp
  have n1: "0 < n" using True unfolding n_def by (simp add: zero_less_nat_eq)
  have n2: "real n \<le> \<bar>r\<bar>" unfolding n_def using fr by (simp add: of_nat_nat)
  have n3: "\<bar>r\<bar> < real n + 1" unfolding n_def using fr by (simp add: of_nat_nat)
  note n = n1 n2 n3
  define L where "L = floorlog 2 n"
  from floorlog_bounds [of n 2] n(1) have b: "2 ^ (L - 1) \<le> n" "n < 2 ^ L"
    by (auto simp: L_def)
  have "L \<noteq> 0" using n(1) by (simp add: L_def floorlog_eq_zero_iff)
  then have L: "0 < L" by simp
  have e: "expo r = int L - 1" using True by (simp add: expo_def n_def L_def)
  have p1: "pow2 (expo r) = 2 ^ (L - 1)" using L by (simp add: e pow2_def nat_diff_distrib')
  have p2: "pow2 (expo r + 1) = 2 ^ L" by (simp add: e pow2_def)
  have "real (2 ^ (L - 1)) \<le> real n" using b(1) by (simp only: of_nat_le_iff)
  then have r1: "(2::real) ^ (L - 1) \<le> real n" by simp
  have "real (Suc n) \<le> real (2 ^ L)" using b(2) by (simp only: of_nat_le_iff Suc_le_eq)
  then have r2: "real n + 1 \<le> 2 ^ L" by simp
  show ?thesis unfolding p1 p2 using n r1 r2 by linarith
next
  case False
  with assms have a: "0 < \<bar>r\<bar>" "\<bar>r\<bar> < 1" by auto
  define y where "y = 1 / \<bar>r\<bar>"
  have y: "1 < y" using a by (simp add: y_def)
  define m where "m = nat (\<lceil>y\<rceil> - 1)"
  have c: "2 \<le> \<lceil>y\<rceil>" using y by linarith
  have m1: "0 < m" using c unfolding m_def by simp
  have rm: "real m = of_int \<lceil>y\<rceil> - 1" using c unfolding m_def by (simp add: of_nat_nat)
  have m2: "real m < y" unfolding rm by linarith
  have m3: "y \<le> real m + 1" unfolding rm by linarith
  note m = m1 m2 m3
  define L where "L = floorlog 2 m"
  from floorlog_bounds [of m 2] m(1) have b: "2 ^ (L - 1) \<le> m" "m < 2 ^ L"
    by (auto simp: L_def)
  have "L \<noteq> 0" using m(1) by (simp add: L_def floorlog_eq_zero_iff)
  then have L: "0 < L" by simp
  have e: "expo r = - int L" using False by (simp add: expo_def m_def L_def y_def)
  have p1: "pow2 (expo r) = 1 / 2 ^ L" using L by (simp add: e pow2_def)
  have p2: "pow2 (expo r + 1) = 1 / 2 ^ (L - 1)" using L
    by (cases L) (simp_all add: e pow2_def nat_diff_distrib')
  have "real (2 ^ (L - 1)) \<le> real m" using b(1) by (simp only: of_nat_le_iff)
  then have "(2::real) ^ (L - 1) \<le> real m" by simp
  then have lo: "2 ^ (L - 1) < y" using m(2) by linarith
  have "real (Suc m) \<le> real (2 ^ L)" using b(2) by (simp only: of_nat_le_iff Suc_le_eq)
  then have "real m + 1 \<le> 2 ^ L" by simp
  then have hi: "y \<le> 2 ^ L" using m(3) by linarith
  have "1 / 2 ^ L \<le> \<bar>r\<bar>" using hi a by (simp add: y_def field_simps)
  moreover have "\<bar>r\<bar> < 1 / 2 ^ (L - 1)" using lo a by (simp add: y_def field_simps)
  ultimately show ?thesis by (simp add: p1 p2)
qed

lemma expo_unique:
  assumes "pow2 e \<le> \<bar>r\<bar>" "\<bar>r\<bar> < pow2 (e + 1)"
  shows "expo r = e"
proof -
  have "r \<noteq> 0" using assms(1) pow2_pos [of e] by auto
  from expo_bounds [OF this] have b: "pow2 (expo r) \<le> \<bar>r\<bar>" "\<bar>r\<bar> < pow2 (expo r + 1)" by auto
  have "\<not> expo r < e"
  proof
    assume "expo r < e"
    then have "pow2 (expo r + 1) \<le> pow2 e" by (intro pow2_le) simp
    with b assms show False by linarith
  qed
  moreover have "\<not> e < expo r"
  proof
    assume "e < expo r"
    then have "pow2 (e + 1) \<le> pow2 (expo r)" by (intro pow2_le) simp
    with b assms show False by linarith
  qed
  ultimately show ?thesis by simp
qed

lemma expo_mono:
  assumes "0 < \<bar>r\<bar>" "\<bar>r\<bar> \<le> \<bar>s\<bar>"
  shows "expo r \<le> expo s"
proof (rule ccontr)
  assume "\<not> expo r \<le> expo s"
  then have "pow2 (expo s + 1) \<le> pow2 (expo r)" by (intro pow2_le) simp
  moreover have "r \<noteq> 0" "s \<noteq> 0" using assms by auto
  ultimately show False using expo_bounds [of r] expo_bounds [of s] assms by linarith
qed


lemma rhe_of_int: "rhe (of_int n) = n"
  by (simp add: rhe_def)

lemma rhe_bounds: "\<lfloor>x\<rfloor> \<le> rhe x \<and> rhe x \<le> \<lfloor>x\<rfloor> + 1"
  by (simp add: rhe_def Let_def)

lemma rhe_err: "\<bar>of_int (rhe x) - x\<bar> \<le> 1/2"
proof -
  have "of_int \<lfloor>x\<rfloor> \<le> x" "x < of_int \<lfloor>x\<rfloor> + 1" by linarith+
  then show ?thesis by (auto simp: rhe_def Let_def)
qed

lemma rhe_mono:
  assumes "x \<le> y"
  shows "rhe x \<le> rhe y"
proof (cases "\<lfloor>x\<rfloor> < \<lfloor>y\<rfloor>")
  case True
  then show ?thesis using rhe_bounds [of x] rhe_bounds [of y] by linarith
next
  case False
  with assms have eq: "\<lfloor>x\<rfloor> = \<lfloor>y\<rfloor>" using floor_mono [of x y] by linarith
  then show ?thesis using assms by (auto simp: rhe_def Let_def)
qed

lemma rhe_nearest:
  assumes "\<bar>s - of_int n\<bar> < 1/2"
  shows "rhe s = n"
proof -
  have "\<bar>of_int (rhe s) - of_int n :: real\<bar> < 1"
    using rhe_err [of s] assms by linarith
  then have "\<bar>rhe s - n\<bar> < 1" by (metis of_int_abs of_int_diff of_int_less_1_iff)
  then show ?thesis by linarith
qed

lemma fl_alt: "r \<noteq> 0 \<Longrightarrow> fl r = of_int (rhe (r / pow2 (ulp_exp r))) * pow2 (ulp_exp r)"
  by (simp add: fl_def ulp_exp_def Let_def)

lemma fl_zero: "fl 0 = 0"
  by (simp add: fl_def)

lemma fl_le_grid:
  assumes "r \<noteq> 0" "r \<le> of_int n * pow2 (ulp_exp r)"
  shows "fl r \<le> of_int n * pow2 (ulp_exp r)"
proof -
  have "r / pow2 (ulp_exp r) \<le> of_int n" using assms(2) pow2_pos [of "ulp_exp r"]
    by (simp add: field_simps)
  from rhe_mono [OF this] have "rhe (r / pow2 (ulp_exp r)) \<le> n" by (simp add: rhe_of_int)
  then have "(of_int (rhe (r / pow2 (ulp_exp r))) :: real) \<le> of_int n" by simp
  then show ?thesis using pow2_pos [of "ulp_exp r"] by (simp add: fl_alt [OF assms(1)])
qed

lemma fl_ge_grid:
  assumes "r \<noteq> 0" "of_int n * pow2 (ulp_exp r) \<le> r"
  shows "of_int n * pow2 (ulp_exp r) \<le> fl r"
proof -
  have "of_int n \<le> r / pow2 (ulp_exp r)" using assms(2) pow2_pos [of "ulp_exp r"]
    by (simp add: field_simps)
  from rhe_mono [OF this] have "n \<le> rhe (r / pow2 (ulp_exp r))" by (simp add: rhe_of_int)
  then have "(of_int n :: real) \<le> of_int (rhe (r / pow2 (ulp_exp r)))" by simp
  then show ?thesis using pow2_pos [of "ulp_exp r"] by (simp add: fl_alt [OF assms(1)])
qed

lemma pow2_grid:
  assumes "q \<le> k"
  shows "pow2 k = of_int (2 ^ nat (k - q)) * pow2 q"
proof -
  have "pow2 k = pow2 (k - q) * pow2 q" using pow2_add [of "k - q" q] by simp
  moreover have "pow2 (k - q) = 2 ^ nat (k - q)" using assms by (simp add: pow2_def)
  ultimately show ?thesis by simp
qed

lemma fl_le_pow2:
  assumes "r \<noteq> 0" "r \<le> pow2 k" "ulp_exp r \<le> k"
  shows "fl r \<le> pow2 k"
  using fl_le_grid [OF assms(1), of "2 ^ nat (k - ulp_exp r)"] assms(2) pow2_grid [OF assms(3)]
  by simp

lemma fl_ge_pow2:
  assumes "r \<noteq> 0" "pow2 k \<le> r" "ulp_exp r \<le> k"
  shows "pow2 k \<le> fl r"
  using fl_ge_grid [OF assms(1), of "2 ^ nat (k - ulp_exp r)"] assms(2) pow2_grid [OF assms(3)]
  by simp

lemma fl_nonneg: "0 \<le> r \<Longrightarrow> 0 \<le> fl r"
  using fl_ge_grid [of r 0] by (cases "r = 0") (simp_all add: fl_zero)

lemma fl_mono_pos:
  assumes "0 < r" "r \<le> s"
  shows "fl r \<le> fl s"
proof -
  have nz: "r \<noteq> 0" "s \<noteq> 0" using assms by auto
  have e: "expo r \<le> expo s" using expo_mono [of r s] assms by simp
  then have q: "ulp_exp r \<le> ulp_exp s" by (simp add: ulp_exp_def)
  show ?thesis
  proof (cases "ulp_exp r = ulp_exp s")
    case True
    have "r / pow2 (ulp_exp s) \<le> s / pow2 (ulp_exp s)"
      using assms(2) pow2_pos [of "ulp_exp s"] by (simp add: divide_right_mono)
    from rhe_mono [OF this]
    have "(of_int (rhe (r / pow2 (ulp_exp s))) :: real) \<le> of_int (rhe (s / pow2 (ulp_exp s)))"
      by simp
    then show ?thesis using pow2_pos [of "ulp_exp s"]
      by (simp add: fl_alt nz True)
  next
    case False
    with q have lt: "ulp_exp r < ulp_exp s" by simp
    then have es: "ulp_exp s = expo s - 52" and er: "expo r < expo s"
      by (auto simp: ulp_exp_def max_def split: if_splits)
    have b: "r < pow2 (expo r + 1)" "pow2 (expo s) \<le> s"
      using expo_bounds [OF nz(1)] expo_bounds [OF nz(2)] assms by auto
    have "pow2 (expo r + 1) \<le> pow2 (expo s)" using er by (intro pow2_le) simp
    then have "r \<le> pow2 (expo s)" using b by linarith
    moreover have "ulp_exp r \<le> expo s" using lt es by simp
    ultimately have 1: "fl r \<le> pow2 (expo s)" using nz by (intro fl_le_pow2)
    have "ulp_exp s \<le> expo s" using es by simp
    with b have 2: "pow2 (expo s) \<le> fl s" using nz by (intro fl_ge_pow2)
    from 1 2 show ?thesis by linarith
  qed
qed

lemma fl_mono_nonneg:
  assumes "0 \<le> r" "r \<le> s"
  shows "fl r \<le> fl s"
proof (cases "r = 0")
  case True
  then show ?thesis using assms fl_nonneg [of s] by (simp add: fl_zero)
next
  case False
  then show ?thesis using assms by (intro fl_mono_pos) auto
qed


lemma fl_grid:
  assumes "r \<noteq> 0" "r = of_int n * pow2 (ulp_exp r)"
  shows "fl r = r"
proof -
  have "r / pow2 (ulp_exp r) = of_int n" using assms(2) pow2_pos [of "ulp_exp r"]
    by (simp add: field_simps)
  then show ?thesis using assms by (simp add: fl_alt rhe_of_int)
qed

lemma pow2_le_iff: "pow2 a \<le> pow2 b \<longleftrightarrow> a \<le> b"
  by (simp add: pow2_powr)

lemma pow2_less_iff: "pow2 a < pow2 b \<longleftrightarrow> a < b"
  by (simp add: pow2_powr)

lemma fl_int_exact:
  assumes "\<bar>n\<bar> \<le> 2 ^ 53"
  shows "fl (of_int n) = of_int n"
proof (cases "n = 0")
  case True
  then show ?thesis by (simp add: fl_zero)
next
  case False
  define r :: real where "r = of_int n"
  have nz: "r \<noteq> 0" using False by (simp add: r_def)
  have a1: "1 \<le> \<bar>r\<bar>" using False by (simp add: r_def flip: of_int_abs)
  have "\<bar>r\<bar> = of_int \<bar>n\<bar>" by (simp add: r_def)
  also have "\<dots> \<le> of_int (2 ^ 53)" using assms by (simp only: of_int_le_iff)
  finally have a2: "\<bar>r\<bar> \<le> pow2 53" by (simp add: pow2_def)
  from expo_bounds [OF nz] have b: "pow2 (expo r) \<le> \<bar>r\<bar>" "\<bar>r\<bar> < pow2 (expo r + 1)" by auto
  have "pow2 0 < pow2 (expo r + 1)" using a1 b(2) by (simp add: pow2_def)
  then have e0: "0 \<le> expo r" by (simp add: pow2_less_iff)
  have "pow2 (expo r) \<le> pow2 53" using a2 b(1) by linarith
  then have e53: "expo r \<le> 53" by (simp add: pow2_le_iff)
  have q: "ulp_exp r = expo r - 52" using e0 by (simp add: ulp_exp_def)
  show ?thesis
  proof (cases "expo r \<le> 52")
    case True
    have "pow2 (ulp_exp r) = 1 / 2 ^ nat (52 - expo r)" using True
      by (cases "expo r = 52") (simp_all add: q pow2_def)
    then have "r = of_int (n * 2 ^ nat (52 - expo r)) * pow2 (ulp_exp r)"
      by (simp add: r_def)
    from fl_grid [OF nz this] show ?thesis by (simp add: r_def)
  next
    case False
    with e53 have e: "expo r = 53" by simp
    with b(1) a2 have "\<bar>r\<bar> = 2 ^ 53" by (simp add: pow2_def)
    then have "\<bar>n\<bar> = 2 ^ 53" unfolding r_def
      by (metis of_int_abs of_int_eq_iff of_int_numeral of_int_power)
    then have "even n" by (metis even_abs_add_iff even_add even_numeral even_power zero_less_numeral)
    then have "of_int n = (of_int (n div 2) :: real) * 2" by (metis dvd_div_mult_self of_int_mult of_int_numeral)
    moreover have "pow2 (ulp_exp r) = 2" by (simp add: q e pow2_def)
    ultimately have "r = of_int (n div 2) * pow2 (ulp_exp r)" by (simp add: r_def)
    from fl_grid [OF nz this] show ?thesis by (simp add: r_def)
  qed
qed

lemma fl_err: "\<bar>fl r - r\<bar> \<le> \<bar>r\<bar> / 2 ^ 53 + 1 / 2 ^ 1075"
proof (cases "r = 0")
  case True
  then show ?thesis by (simp add: fl_zero)
next
  case False
  define q where "q = ulp_exp r"
  define y where "y = r / pow2 q"
  have pq: "0 < pow2 q" by (rule pow2_pos)
  have r: "r = y * pow2 q" using pq by (simp add: y_def)
  have "fl r - r = (of_int (rhe y) - y) * pow2 q"
    using pq by (simp add: fl_alt [OF False] y_def q_def algebra_simps)
  then have "\<bar>fl r - r\<bar> = \<bar>of_int (rhe y) - y\<bar> * pow2 q"
    using pq by (simp add: abs_mult)
  also have "\<dots> \<le> (1/2) * pow2 q" using rhe_err [of y] pq by (intro mult_right_mono) auto
  finally have h: "\<bar>fl r - r\<bar> \<le> pow2 q / 2" by simp
  show ?thesis
  proof (cases "expo r - 52 \<le> - 1074")
    case True
    then have "q = - 1074" by (simp add: q_def ulp_exp_def)
    then have "pow2 q / 2 = 1 / 2 ^ 1075" by (simp add: pow2_def)
    moreover have "0 \<le> \<bar>r\<bar> / 2 ^ 53" by simp
    ultimately show ?thesis using h by linarith
  next
    case False
    then have "q = expo r - 52" by (simp add: q_def ulp_exp_def)
    then have "pow2 q = pow2 (expo r) / 2 ^ 52"
      using pow2_diff [of "expo r" 52] by (simp add: pow2_def)
    also have "\<dots> \<le> \<bar>r\<bar> / 2 ^ 52" using expo_bounds [OF \<open>r \<noteq> 0\<close>]
      by (simp add: divide_right_mono)
    finally have "pow2 q / 2 \<le> \<bar>r\<bar> / 2 ^ 53" by simp
    moreover have "(0::real) \<le> 1 / 2 ^ 1075" by simp
    ultimately show ?thesis using h by linarith
  qed
qed

lemma to_float_Fin:
  assumes "\<bar>r\<bar> \<le> 2 ^ 1000"
  shows "to_float r = Fin (fl r)"
proof -
  have "\<bar>fl r\<bar> \<le> \<bar>r\<bar> + \<bar>r\<bar> / 2 ^ 53 + 1 / 2 ^ 1075" using fl_err [of r] by linarith
  also have "\<dots> \<le> 2 ^ 1000 + 2 ^ 1000 / 2 ^ 53 + 1 / 2 ^ 1075"
    using assms by (intro add_mono divide_right_mono) auto
  also have "\<dots> < 2 ^ 1024" by simp
  finally have "\<bar>fl r\<bar> < fmax" by (simp add: fmax_def)
  then show ?thesis by (auto simp: to_float_def Let_def)
qed

lemma float_of_int_exact:
  assumes "\<bar>n\<bar> \<le> 2 ^ 53"
  shows "float_of_int n = Inr (Fin (of_int n))"
proof -
  have "\<bar>of_int n :: real\<bar> = of_int \<bar>n\<bar>" by simp
  also have "\<dots> \<le> of_int (2 ^ 53)" using assms by (simp only: of_int_le_iff)
  also have "\<dots> \<le> 2 ^ 1000" by simp
  finally have "to_float (of_int n) = Fin (fl (of_int n))" by (rule to_float_Fin)
  then show ?thesis by (simp add: float_of_int_def fl_int_exact [OF assms])
qed

lemma fmax_pos: "0 < fmax"
  by (simp add: fmax_def)

lemma to_float_nonneg: "0 \<le> r \<Longrightarrow> nonneg (to_float r)"
  using fl_nonneg [of r] fmax_pos by (simp add: to_float_def Let_def)

lemma to_float_mono:
  assumes "0 \<le> r" "r \<le> s"
  shows "fle (to_float r) (to_float s)"
  using fl_mono_nonneg [OF assms] fl_nonneg [OF assms(1)] fmax_pos
  by (simp add: to_float_def Let_def)

lemma fadd_one_mono:
  assumes "nonneg a" "nonneg b" "fle a b"
  shows "fle (fadd (Fin 1) a) (fadd (Fin 1) b) \<and> nonneg (fadd (Fin 1) a) \<and> nonneg (fadd (Fin 1) b)"
proof (cases a)
  case (Fin x)
  note a = this
  show ?thesis
  proof (cases b)
    case (Fin y)
    then show ?thesis using assms a
      by (simp add: to_float_mono to_float_nonneg)
  next
    case PInf
    have "nonneg (to_float (1 + x))" using assms a by (intro to_float_nonneg) simp
    then show ?thesis using PInf a by (cases "to_float (1 + x)") simp_all
  qed (use assms in simp_all)
next
  case PInf
  then show ?thesis using assms by (cases b) simp_all
qed (use assms in simp_all)

lemma fmul_const_mono:
  assumes "nonneg a" "nonneg b" "fle a b" "0 < c"
  shows "fle (fmul (Fin c) a) (fmul (Fin c) b)"
proof (cases a)
  case (Fin x)
  note a = this
  show ?thesis
  proof (cases b)
    case (Fin y)
    then show ?thesis using assms a
      by (simp add: to_float_mono mult_left_mono)
  next
    case PInf
    have "nonneg (to_float (c * x))" using assms a by (intro to_float_nonneg) simp
    then show ?thesis using PInf a assms by (cases "to_float (c * x)") simp_all
  qed (use assms in simp_all)
next
  case PInf
  then show ?thesis using assms by (cases b) simp_all
qed (use assms in simp_all)

lemma square_mono:
  assumes "flt (Fin 0) a" "flt a b"
  shows "fle (fmul a a) (fmul b b) \<and> nonneg (fmul a a) \<and> nonneg (fmul b b)"
proof (cases a)
  case (Fin x)
  note a = this
  then have x: "0 < x" using assms by simp
  show ?thesis
  proof (cases b)
    case (Fin y)
    then have "x < y" using assms a by simp
    then have "x * x \<le> y * y" using x by (intro mult_mono) auto
    then show ?thesis using Fin a x by (simp add: to_float_mono to_float_nonneg)
  next
    case PInf
    have "nonneg (to_float (x * x))" by (intro to_float_nonneg) simp
    then show ?thesis using PInf a by (cases "to_float (x * x)") simp_all
  qed (use assms a in simp_all)
next
  case PInf
  then show ?thesis using assms by (cases b) simp_all
qed (use assms in simp_all)

lemma penalty_mono:
  assumes "flt (Fin 0) a" "flt a b"
  shows "fle (penalty a) (penalty b)"
proof -
  from square_mono [OF assms]
  have s: "fle (fmul a a) (fmul b b)" "nonneg (fmul a a)" "nonneg (fmul b b)" by auto
  from fadd_one_mono [OF s(2) s(3) s(1)] show ?thesis
    unfolding penalty_def by (intro fmul_const_mono) auto
qed

section \<open>Properties of the codec\<close>

lemmas float_eval = fl_def expo_def pow2_def rhe_def compute_floorlog Let_def to_float_def
  fmax_def float_of_int_def int_truediv_def


text \<open>
  C7. On a degenerate axis, where both bounds are the same integer \<open>k\<close>, encoding any
  value gives the fraction 0.5 and decoding any float (finite or not) gives \<open>k\<close>;
  neither direction raises.
\<close>

theorem degenerate_axis:
  "to_fraction x k k = Inr (Fin (1/2)) \<and> from_fraction f k k = Inr k"
  by (simp add: to_fraction_def from_fraction_def)

lemma fl_near:
  assumes "\<bar>r\<bar> \<le> B"
  shows "\<bar>fl r - r\<bar> \<le> B / 2 ^ 53 + 1 / 2 ^ 1075"
proof -
  have "\<bar>r\<bar> / 2 ^ 53 \<le> B / 2 ^ 53" using assms by (simp add: divide_right_mono)
  then show ?thesis using fl_err [of r] by linarith
qed

lemma round_trip_real:
  fixes A M N :: real
  assumes N: "1 \<le> N" "N \<le> 2 ^ 50" and M: "0 \<le> M" "M \<le> N"
    and X: "\<bar>A + M\<bar> \<le> 2 ^ 49"
  shows "\<bar>fl (A + fl (fl (M / N) * N)) - (A + M)\<bar> < 1/2"
proof -
  define f where "f = fl (M / N)"
  define p where "p = fl (f * N)"
  define s where "s = fl (A + p)"
  have "\<bar>M / N\<bar> \<le> 1" using N M by simp
  from fl_near [OF this] have e0: "\<bar>f - M / N\<bar> \<le> 1 / 2 ^ 53 + 1 / 2 ^ 1075" by (simp add: f_def)
  have "f * N - M = (f - M / N) * N" using N by (simp add: field_simps)
  then have "\<bar>f * N - M\<bar> = \<bar>f - M / N\<bar> * N" using N by (simp add: abs_mult)
  also have "\<dots> \<le> (1 / 2 ^ 53 + 1 / 2 ^ 1075) * 2 ^ 50"
    using e0 N by (intro mult_mono) auto
  also have "\<dots> \<le> 1/7" by simp
  finally have c1: "\<bar>f * N - M\<bar> \<le> 1/7" .
  have "\<bar>f * N\<bar> \<le> 2 ^ 50 + 1" using c1 M N by linarith
  from fl_near [OF this] have "\<bar>p - f * N\<bar> \<le> (2 ^ 50 + 1) / 2 ^ 53 + 1 / 2 ^ 1075"
    by (simp add: p_def)
  also have "\<dots> \<le> 1/7" by simp
  finally have c2: "\<bar>p - f * N\<bar> \<le> 1/7" .
  have "\<bar>A + p\<bar> \<le> 2 ^ 49 + 1" using c1 c2 X by linarith
  from fl_near [OF this] have "\<bar>s - (A + p)\<bar> \<le> (2 ^ 49 + 1) / 2 ^ 53 + 1 / 2 ^ 1075"
    by (simp add: s_def)
  also have "\<dots> \<le> 1/7" by simp
  finally have c3: "\<bar>s - (A + p)\<bar> \<le> 1/7" .
  have "\<bar>s - (A + M)\<bar> < 1/2" using c1 c2 c3 by linarith
  then show ?thesis by (simp add: s_def p_def f_def)
qed

text \<open>
  C5, as the code has it. For integers \<open>lo \<le> x \<le> hi\<close> with both bounds at most
  \<open>2^49\<close> in magnitude, encoding \<open>x\<close> succeeds and decoding the fraction returns \<open>x\<close>:
  the three binary64 roundings of the two functions together stay below one half, which
  the final rounding to the nearest integer absorbs.
\<close>

theorem codec_round_trip:
  assumes "lo \<le> x" "x \<le> hi" "\<bar>lo\<bar> \<le> 2 ^ 49" "\<bar>hi\<bar> \<le> 2 ^ 49"
  shows "\<exists>f. to_fraction x lo hi = Inr f \<and> from_fraction f lo hi = Inr x"
proof (cases "lo = hi")
  case True
  then show ?thesis using assms by (simp add: to_fraction_def from_fraction_def)
next
  case False
  with assms have lt: "lo < hi" by simp
  define N :: real where "N = of_int (hi - lo)"
  define M :: real where "M = of_int (x - lo)"
  define A :: real where "A = of_int lo"
  have N: "1 \<le> N" "N \<le> 2 ^ 50"
  proof -
    have "1 \<le> hi - lo" using lt by simp
    then show "1 \<le> N" unfolding N_def by (metis of_int_1_le_iff)
    have "hi - lo \<le> 2 ^ 50" using assms by simp
    then have "(of_int (hi - lo) :: real) \<le> of_int (2 ^ 50)" by (simp only: of_int_le_iff)
    then show "N \<le> 2 ^ 50" by (simp add: N_def)
  qed
  have M: "0 \<le> M" "M \<le> N" using assms by (simp_all add: M_def N_def)
  have xb: "\<bar>x\<bar> \<le> 2 ^ 49" using assms by linarith
  have "\<bar>A + M\<bar> = of_int \<bar>x\<bar>" by (simp add: A_def M_def)
  also have "\<dots> \<le> of_int (2 ^ 49)" using xb by (simp only: of_int_le_iff)
  finally have X: "\<bar>A + M\<bar> \<le> 2 ^ 49" by simp
  define f where "f = fl (M / N)"
  have r1: "\<bar>M / N\<bar> \<le> 1" using N M by simp
  then have "\<bar>M / N\<bar> \<le> 2 ^ 1000" by (rule order_trans) simp
  then have tf: "to_float (M / N) = Fin f" by (simp add: to_float_Fin f_def)
  then have enc: "to_fraction x lo hi = Inr (Fin f)"
    using lt by (simp add: to_fraction_def int_truediv_def M_def N_def)
  have "\<bar>hi - lo\<bar> \<le> 2 ^ 53" using assms lt by simp
  then have w: "float_of_int (hi - lo) = Inr (Fin N)"
    by (simp add: float_of_int_exact N_def)
  have "\<bar>lo\<bar> \<le> 2 ^ 53" using assms by simp
  then have fa: "float_of_int lo = Inr (Fin A)" by (simp add: float_of_int_exact A_def)
  have e0: "\<bar>f - M / N\<bar> \<le> 1 / 2 ^ 53 + 1 / 2 ^ 1075"
    using fl_near [OF r1] by (simp add: f_def)
  have small: "(1 / 2 ^ 53 + 1 / 2 ^ 1075 :: real) \<le> 1" by simp
  have f2: "\<bar>f\<bar> \<le> 2" using e0 r1 small by linarith
  have "\<bar>f * N\<bar> = \<bar>f\<bar> * N" using N by (simp add: abs_mult)
  also have "\<dots> \<le> 2 * 2 ^ 50" using f2 N by (intro mult_mono) auto
  finally have fN: "\<bar>f * N\<bar> \<le> 2 * 2 ^ 50" .
  then have "\<bar>f * N\<bar> \<le> 2 ^ 1000" by (rule order_trans) simp
  then have mul: "to_float (f * N) = Fin (fl (f * N))" by (rule to_float_Fin)
  have "\<bar>fl (f * N) - f * N\<bar> \<le> (2 * 2 ^ 50) / 2 ^ 53 + 1 / 2 ^ 1075"
    using fl_near [OF fN] .
  also have "\<dots> \<le> 1" by simp
  finally have pn: "\<bar>fl (f * N) - f * N\<bar> \<le> 1" .
  have "\<bar>A\<bar> = of_int \<bar>lo\<bar>" by (simp add: A_def)
  also have "\<dots> \<le> of_int (2 ^ 53)" using \<open>\<bar>lo\<bar> \<le> 2 ^ 53\<close> by (simp only: of_int_le_iff)
  finally have Ab: "\<bar>A\<bar> \<le> 2 ^ 53" by simp
  have "\<bar>A + fl (f * N)\<bar> \<le> 2 ^ 53 + 2 * 2 ^ 50 + 1" using pn fN Ab by linarith
  also have "\<dots> \<le> 2 ^ 1000" by simp
  finally have "\<bar>A + fl (f * N)\<bar> \<le> 2 ^ 1000" .
  then have add: "to_float (A + fl (f * N)) = Fin (fl (A + fl (f * N)))" by (rule to_float_Fin)
  have "\<bar>fl (A + fl (fl (M / N) * N)) - of_int x\<bar> < 1/2"
    using round_trip_real [OF N M X] by (simp add: A_def M_def)
  from rhe_nearest [OF this] have "rhe (fl (A + fl (f * N))) = x" by (simp add: f_def)
  then have "from_fraction (Fin f) lo hi = Inr x"
    using lt w fa mul add by (simp add: from_fraction_def)
  with enc show ?thesis by blast
qed

theorem codec_round_trip_witness:
  "\<exists>f. to_fraction 3 0 10 = Inr f \<and> from_fraction f 0 10 = Inr 3"
  by (rule codec_round_trip) simp_all

text \<open>
  C5 as stated, for all integers, fails once the bounds leave the range in which binary64
  holds every integer: on the axis from 0 to \<open>2^53 + 1\<close> the value \<open>2^53 + 1\<close> encodes
  to 1.0 and decodes to \<open>2^53\<close>.
\<close>

theorem codec_round_trip_fails:
  "to_fraction 9007199254740993 0 9007199254740993 = Inr (Fin 1) \<and>
   from_fraction (Fin 1) 0 9007199254740993 = Inr 9007199254740992"
  by (simp add: to_fraction_def from_fraction_def float_eval)

section \<open>Properties of placed content\<close>

lemma attrs_moved_move_attrs: "attrs_moved dx dy a (move_attrs dx dy a)"
  by (simp add: attrs_moved_def move_attrs_def)

lemma reach_agree:
  "reach n h r = Some rs \<Longrightarrow> (\<forall>q \<in> set rs. h1 q = h q) \<Longrightarrow> reach n h1 r = Some rs"
  and reach_all_agree:
  "reach_all n h g = Some rs \<Longrightarrow> (\<forall>q \<in> set rs. h1 q = h q) \<Longrightarrow> reach_all n h1 g = Some rs"
proof (induction n h r and n h g arbitrary: rs and rs rule: reach_reach_all.induct)
  case (1 h r)
  then show ?case by simp
next
  case (2 n h r)
  then show ?case by (cases "h r") (auto split: option.splits)
next
  case (3 n h)
  then show ?case by simp
next
  case (4 n h c cs)
  then show ?case by (fastforce split: option.splits)
qed


lemma move_visits:
  "reach n h r = Some rs \<Longrightarrow> distinct rs \<Longrightarrow> \<forall>q \<in> set rs. initialised (h q) \<Longrightarrow>
     \<exists>h'. move n dx dy r h = Inr h' \<and> (\<forall>q \<in> set rs. obj_moved dx dy (h q) (h' q)) \<and>
          (\<forall>q. q \<notin> set rs \<longrightarrow> h' q = h q)"
  and move_all_visits:
  "reach_all n h g = Some rs \<Longrightarrow> distinct rs \<Longrightarrow> \<forall>q \<in> set rs. initialised (h q) \<Longrightarrow>
     \<exists>h'. move_all n dx dy g h = Inr h' \<and> (\<forall>q \<in> set rs. obj_moved dx dy (h q) (h' q)) \<and>
          (\<forall>q. q \<notin> set rs \<longrightarrow> h' q = h q)"
proof (induction n dx dy r h and n dx dy g h arbitrary: rs and rs rule: move_move_all.induct)
  case (1 dx dy r h)
  then show ?case by simp
next
  case (2 n dx dy r h)
  show ?case
  proof (cases "h r")
    case (PLeaf k a)
    with "2.prems" have "rs = [r]" by simp
    then show ?thesis using PLeaf by (simp add: attrs_moved_move_attrs)
  next
    case (PPath a off)
    with "2.prems" have "rs = [r]" by simp
    then show ?thesis using PPath by (simp add: attrs_moved_move_attrs)
  next
    case (PGroup ao g)
    from "2.prems"(1) PGroup obtain rs' where g: "reach_all n h g = Some rs'" and rs: "rs = r # rs'"
      by (auto split: option.splits)
    from "2.prems"(3) rs PGroup obtain a where a: "ao = Some a" by (cases ao) auto
    let ?h0 = "h(r := PGroup (Some (move_attrs dx dy a)) g)"
    have nr: "r \<notin> set rs'" using "2.prems"(2) rs by simp
    then have agree: "\<forall>q \<in> set rs'. ?h0 q = h q" by auto
    from reach_all_agree [OF g agree] have g0: "reach_all n ?h0 g = Some rs'" .
    have d: "distinct rs'" using "2.prems"(2) rs by simp
    have i: "\<forall>q \<in> set rs'. initialised (?h0 q)" using "2.prems"(3) rs nr by auto
    from "2.IH" [OF PGroup a g0 d i] obtain h' where
      m: "move_all n dx dy g ?h0 = Inr h'"
      and v: "\<forall>q \<in> set rs'. obj_moved dx dy (?h0 q) (h' q)"
      and f: "\<forall>q. q \<notin> set rs' \<longrightarrow> h' q = ?h0 q" by blast
    have "move (Suc n) dx dy r h = Inr h'" using PGroup a m by simp
    moreover have "obj_moved dx dy (h r) (h' r)"
      using f nr PGroup a by (simp add: attrs_moved_move_attrs)
    moreover have "\<forall>q \<in> set rs'. obj_moved dx dy (h q) (h' q)"
    proof
      fix q assume q: "q \<in> set rs'"
      with nr have "q \<noteq> r" by auto
      with v q show "obj_moved dx dy (h q) (h' q)" by (metis fun_upd_other)
    qed
    moreover have "\<forall>q. q \<notin> set rs \<longrightarrow> h' q = h q" using f rs by auto
    ultimately show ?thesis using rs by auto
  qed
next
  case (3 n dx dy h)
  then show ?case by simp
next
  case (4 n dx dy c cs h)
  from "4.prems"(1) obtain xs ys where xs: "reach n h c = Some xs"
    and ys: "reach_all n h cs = Some ys" and rs: "rs = xs @ ys"
    by (auto split: option.splits)
  have dx: "distinct xs" and dy: "distinct ys" and dj: "set xs \<inter> set ys = {}"
    using "4.prems"(2) rs by auto
  have ix: "\<forall>q \<in> set xs. initialised (h q)" using "4.prems"(3) rs by auto
  from "4.IH"(1) [OF xs dx ix] obtain h1 where
    m1: "move n dx dy c h = Inr h1"
    and v1: "\<forall>q \<in> set xs. obj_moved dx dy (h q) (h1 q)"
    and f1: "\<forall>q. q \<notin> set xs \<longrightarrow> h1 q = h q" by blast
  have agree: "\<forall>q \<in> set ys. h1 q = h q" using f1 dj by auto
  from reach_all_agree [OF ys agree] have ys1: "reach_all n h1 cs = Some ys" .
  have iy: "\<forall>q \<in> set ys. initialised (h1 q)" using "4.prems"(3) rs agree by auto
  from "4.IH"(2) [OF m1 ys1 dy iy] obtain h2 where
    m2: "move_all n dx dy cs h1 = Inr h2"
    and v2: "\<forall>q \<in> set ys. obj_moved dx dy (h1 q) (h2 q)"
    and f2: "\<forall>q. q \<notin> set ys \<longrightarrow> h2 q = h1 q" by blast
  have "move_all n dx dy (c # cs) h = Inr h2" using m1 m2 by simp
  moreover have "\<forall>q \<in> set xs. obj_moved dx dy (h q) (h2 q)" using v1 f2 dj by auto
  moreover have "\<forall>q \<in> set ys. obj_moved dx dy (h q) (h2 q)" using v2 agree by auto
  moreover have "\<forall>q. q \<notin> set rs \<longrightarrow> h2 q = h q" using f1 f2 rs by auto
  ultimately show ?case using rs by auto
qed


text \<open>
  C9, as the code has it. Let a move from an object visit every object at most once
  (no child is listed twice and no object is reached along two ways), within the depth
  bound, and let every object visited be initialised. Then the move succeeds; every
  object visited, the object itself and every child below it, has its requested and its
  actual rectangle translated by exactly \<open>(dx, dy)\<close> and keeps \<open>ok_breaks\<close>,
  \<open>bad_breaks\<close>, \<open>unused_width\<close>, \<open>internal_variance\<close> and its child list; every other
  object of the store is unchanged.
\<close>

theorem move_translates:
  assumes "reach n h r = Some rs" and "distinct rs"
    and "list_all (\<lambda>q. initialised (h q)) rs"
  shows "\<exists>h'. move n dx dy r h = Inr h' \<and>
           list_all (\<lambda>q. obj_moved dx dy (h q) (h' q)) rs \<and>
           (\<forall>q. q \<notin> set rs \<longrightarrow> h' q = h q)"
  using move_visits [OF assms(1) assms(2), of dx dy] assms(3) by (simp add: list_all_iff)

theorem move_translates_witness:
  "\<exists>h'. move 5 3 (- 2) 0 tree_store = Inr h' \<and>
        obj_moved 3 (- 2) (tree_store 0) (h' 0) \<and>
        obj_moved 3 (- 2) (tree_store 1) (h' 1) \<and>
        obj_moved 3 (- 2) (tree_store 2) (h' 2) \<and>
        h' 3 = tree_store 3"
proof -
  have r: "reach 5 tree_store 0 = Some [0, 1, 2]"
    by (simp add: tree_store_def unit_leaf_def eval_nat_numeral)
  have d: "distinct [0, 1, 2 :: nat]" by simp
  have i: "list_all (\<lambda>q. initialised (tree_store q)) [0, 1, 2]"
    by (simp add: tree_store_def unit_leaf_def)
  from move_translates [OF r d i, of 3 "- 2"] show ?thesis by auto
qed

text \<open>
  C9 as stated, for every placement node, fails in two ways. A child that its group lists
  twice is moved twice: after a move of the group by \<open>(3, 0)\<close> its rectangles stand at
  \<open>(6, 0)\<close>. And on the group whose constructor returned early the move raises an
  attribute error.
\<close>

theorem move_not_exact:
  "object_after 1 (move 5 3 0 0 shared_store) =
     Inr (PLeaf RectContent (base_init \<lparr>r_left = 6, r_top = 0, r_right = 14, r_bottom = 4\<rparr>
            \<lparr>r_left = 6, r_top = 0, r_right = 14, r_bottom = 4\<rparr> False)) \<and>
   \<not> obj_moved 3 0 (shared_store 1)
       (PLeaf RectContent (base_init \<lparr>r_left = 6, r_top = 0, r_right = 14, r_bottom = 4\<rparr>
            \<lparr>r_left = 6, r_top = 0, r_right = 14, r_bottom = 4\<rparr> False)) \<and>
   move 5 3 0 0 (shared_store(0 := as_object EmptyGroup [])) = Inl AttributeError"
  by (simp add: shared_store_def unit_leaf_def group_attrs_def eval_nat_numeral move_attrs_def
      base_init_def rect_move_def attrs_moved_def unused_requested_width_def width_def)

text \<open>
  C10. A group constructed from children that are all \<open>None\<close> or falsy (in particular
  from no children) is the uninitialised empty group: none of the attributes of the base
  initialisation exists on it, and \<open>error_from_size\<close>, \<open>move\<close> and \<open>draw\<close> each fail on it
  with an attribute error.
\<close>

theorem empty_group_uninitialised:
  assumes "list_all (\<lambda>p. \<not> truthy p) children"
  shows "group_init children req act = Inr EmptyGroup \<and>
         get_attrs EmptyGroup = Inl AttributeError \<and>
         error_from_size EmptyGroup mb mg = Inl AttributeError \<and>
         move (Suc n) dx dy r (h(r := as_object EmptyGroup cs)) = Inl AttributeError \<and>
         draw EmptyGroup = Inl AttributeError"
proof -
  from assms have "filter truthy children = []"
    by (simp add: filter_empty_conv list_all_iff)
  then show ?thesis by (simp add: group_init_def)
qed

theorem empty_group_uninitialised_witness:
  "group_init [None, Some EmptyGroup] \<lparr>r_left = 0, r_top = 0, r_right = 10, r_bottom = 10\<rparr> None
     = Inr EmptyGroup \<and>
   group_init [] \<lparr>r_left = 0, r_top = 0, r_right = 10, r_bottom = 10\<rparr> None = Inr EmptyGroup \<and>
   move 1 1 1 0 (shared_store(0 := as_object EmptyGroup [])) = Inl AttributeError"
  using empty_group_uninitialised [of "[None, Some EmptyGroup]"
          "\<lparr>r_left = 0, r_top = 0, r_right = 10, r_bottom = 10\<rparr>" None "Fin 1" "Fin 1" 0 1 1 0
          shared_store "[]"]
        empty_group_uninitialised [of "[]"
          "\<lparr>r_left = 0, r_top = 0, r_right = 10, r_bottom = 10\<rparr>" None "Fin 1" "Fin 1" 0 1 1 0
          shared_store "[]"]
  by simp

text \<open>
  C2. The specification evaluates each band of vertically overlapping children on its own
  and takes the minimum over the bands. The source evaluates the strip of the whole
  sorted child list in every round, so two children stacked one above the other, each
  covering one half of the width, leave no unused width, where the banded scan leaves
  half of the width.
\<close>

theorem unused_width_not_banded:
  "calculate_unused_width_for_group
     [\<lparr>requested = \<lparr>r_left = 0, r_top = 0, r_right = 50, r_bottom = 10\<rparr>, unused_width = 0\<rparr>,
      \<lparr>requested = \<lparr>r_left = 50, r_top = 20, r_right = 100, r_bottom = 30\<rparr>, unused_width = 0\<rparr>]
     \<lparr>r_left = 0, r_top = 0, r_right = 100, r_bottom = 30\<rparr> = Inr 0 \<and>
   spec_unused_width_for_group
     [\<lparr>requested = \<lparr>r_left = 0, r_top = 0, r_right = 50, r_bottom = 10\<rparr>, unused_width = 0\<rparr>,
      \<lparr>requested = \<lparr>r_left = 50, r_top = 20, r_right = 100, r_bottom = 30\<rparr>, unused_width = 0\<rparr>]
     \<lparr>r_left = 0, r_top = 0, r_right = 100, r_bottom = 30\<rparr> = Inr 50"
  by code_simp

text \<open>
  C8, as the code has it. For an error node whose actual area, width times height, lies
  between 0 and \<open>2^53\<close>, \<open>error_from_size\<close> returns exactly \<open>1e9\<close> minus the area,
  whatever the two weights are, so the value decreases as the area grows; it exceeds a
  penalty total \<open>p\<close> exactly when \<open>p\<close> plus the area stays below \<open>1e9\<close>.
\<close>

theorem error_content_badness:
  assumes "0 \<le> width (actual a) * height (actual a)"
    and "width (actual a) * height (actual a) \<le> 2 ^ 53"
  shows "error_from_size (Leaf ErrorContent a) mb mg =
           Inr (Fin (1000000000 - of_int (width (actual a) * height (actual a)))) \<and>
         (flt (Fin p) (Fin (1000000000 - of_int (width (actual a) * height (actual a))))
            \<longleftrightarrow> p + of_int (width (actual a) * height (actual a)) < 1000000000)"
proof -
  define k where "k = width (actual a) * height (actual a)"
  have k: "0 \<le> k" "k \<le> 2 ^ 53" using assms by (simp_all add: k_def)
  then have "\<bar>k\<bar> \<le> 2 ^ 53" by simp
  from float_of_int_exact [OF this] have f: "float_of_int k = Inr (Fin (of_int k))" .
  have d: "\<bar>1000000000 - k\<bar> \<le> 2 ^ 53" using k by simp
  have "\<bar>1000000000 - of_int k :: real\<bar> = of_int \<bar>1000000000 - k\<bar>" by simp
  also have "\<dots> \<le> of_int (2 ^ 53)" using d by (simp only: of_int_le_iff)
  also have "\<dots> \<le> 2 ^ 1000" by simp
  finally have "to_float (1000000000 - of_int k) = Fin (fl (1000000000 - of_int k))"
    by (rule to_float_Fin)
  moreover have "fl (of_int (1000000000 - k)) = of_int (1000000000 - k)"
    using d by (rule fl_int_exact)
  ultimately have "to_float (1000000000 - of_int k) = Fin (1000000000 - of_int k)" by simp
  then have "error_from_size (Leaf ErrorContent a) mb mg = Inr (Fin (1000000000 - of_int k))"
    using f by (simp add: error_from_size_error_def fsub_def flip: k_def)
  moreover have "flt (Fin p) (Fin (1000000000 - of_int k)) \<longleftrightarrow> p + of_int k < 1000000000"
    by auto
  ultimately show ?thesis by (simp add: k_def)
qed

theorem error_content_badness_witness:
  "error_from_size (Leaf ErrorContent (base_init \<lparr>r_left = 0, r_top = 0, r_right = 100, r_bottom = 50\<rparr>
          \<lparr>r_left = 0, r_top = 0, r_right = 100, r_bottom = 50\<rparr> False)) (Fin 7) (Fin 2) = Inr (Fin 999995000) \<and>
   flt (Fin 12) (Fin 999995000)"
  using error_content_badness [of "base_init \<lparr>r_left = 0, r_top = 0, r_right = 100, r_bottom = 50\<rparr>
          \<lparr>r_left = 0, r_top = 0, r_right = 100, r_bottom = 50\<rparr> False" "Fin 7" "Fin 2" 12]
  by (simp add: base_init_def width_def height_def)
text \<open>
  C8 as stated fails for a large error node: with an actual rectangle of 40000 by 25000
  the badness is 0, below the size error 1 of a paragraph with one unused unit of width
  and weight 1.
\<close>

theorem error_content_not_dominating:
  "error_from_size (Leaf ErrorContent (base_init \<lparr>r_left = 0, r_top = 0, r_right = 40000, r_bottom = 25000\<rparr>
          \<lparr>r_left = 0, r_top = 0, r_right = 40000, r_bottom = 25000\<rparr> False)) (Fin 1) (Fin 1) = Inr (Fin 0) \<and>
   error_from_size (Leaf ParagraphContent (base_init \<lparr>r_left = 0, r_top = 0, r_right = 10, r_bottom = 10\<rparr>
          \<lparr>r_left = 0, r_top = 0, r_right = 9, r_bottom = 10\<rparr> False)) (Fin 1) (Fin 1) = Inr (Fin 1) \<and>
   flt (Fin 0) (Fin 1)"
  by (simp add: error_from_size_error_def error_from_size_base_def base_init_def width_def height_def
      unused_requested_width_def fsub_def float_eval)

section \<open>Properties of the optimizer\<close>








lemma encode_coarse: "params2array \<lparr>value = [5], low = 0, high = 10\<rparr> = Inr [Fin (1/2)]"
  by (simp add: params2array_def to_fraction_def float_eval)

lemma decode_coarse: "array2tuple [Fin (1/2)] \<lparr>value = [5], low = 0, high = 10\<rparr> = Inr [5]"
  by (simp add: array2tuple_def from_fraction_def float_eval)

lemma encode_fine: "params2array \<lparr>value = [2], low = 0, high = 5\<rparr> = Inr [Fin (fl (2/5))]"
  by (simp add: params2array_def to_fraction_def float_eval)

lemma decode_fine: "array2tuple [Fin (fl (2/5))] \<lparr>value = [2], low = 0, high = 5\<rparr> = Inr [2]"
  by (simp add: array2tuple_def from_fraction_def float_eval)

lemmas run_eval = stage1func_def stage2optimize_def minimize_def init_state_def adapter_def
  stage2func_def array2params_def encode_fine decode_fine decode_coarse Let_def

text \<open>
  C6. When the stage-1 minimization stops without success, \<open>run\<close> returns the triple of
  three absent values and does not raise.
\<close>

theorem run_stage1_failure:
  assumes "params2array x1init = Inr x0"
    and "drive (mz x0) (adapter (stage1func mz prob) x1init) init_state = Inr ((False, x, f), s')"
  shows "run mz prob x1init = Inr (None, None, None)"
  using assms by (simp add: run_def run_from_def minimize_def)

theorem run_stage1_failure_witness:
  "run failing_minimizer nan_problem \<lparr>value = [5], low = 0, high = 10\<rparr> = Inr (None, None, None)"
  by (rule run_stage1_failure [OF encode_coarse, where x = "[Fin (1/2)]" and f = NaN])
     (simp add: run_eval failing_minimizer_def nan_problem_def)










text \<open>
  C1. With a stage-2 minimization that does not converge (the score here is NaN at every
  point), the value that \<open>stage1func\<close> hands back to the stage-1 minimizer for the coarse
  trial is \<open>None\<close>, and the dictionary records \<open>(None, None)\<close> for it: no finite score
  stands in for the failure.
\<close>

theorem stage2_failure_not_absorbed:
  "\<exists>s. stage1func failing_minimizer nan_problem [7] init_state = Inr (None, s) \<and>
       best_combos s [7] = Some (None, None)"
  by (simp add: run_eval failing_minimizer_def nan_problem_def)

text \<open>
  C4, as the code has it. When the validity error of the initial fine guess is positive,
  \<open>_stage2optimize\<close> returns exactly \<open>1e6 * (1 + err * err)\<close> with no fine parameters,
  and when the validity error of a fine trial is positive, \<open>stage2func\<close> returns exactly
  that expression; in both cases the list of calls of the caller's \<open>score\<close> is left as it
  was. For two errors \<open>0 < a < b\<close> the penalty of \<open>a\<close> is less than or equal to the
  penalty of \<open>b\<close>.
\<close>

theorem validity_penalty:
  "(flt (Fin 0) (validity_error prob (stage2parameters prob p1)) \<longrightarrow>
      stage2optimize mz prob p1 s =
        Inr ((Some (penalty (validity_error prob (stage2parameters prob p1))), None),
             s\<lparr>stage2_runs := stage2_runs s @ [p1]\<rparr>)) \<and>
   (flt (Fin 0) (validity_error prob (Some \<lparr>value = x2, low = low p2, high = high p2\<rparr>)) \<longrightarrow>
      stage2func prob p1 p2 x2 s =
        Inr (Some (penalty (validity_error prob (Some \<lparr>value = x2, low = low p2, high = high p2\<rparr>))), s)) \<and>
   (flt (Fin 0) a \<and> flt a b \<longrightarrow> fle (penalty a) (penalty b))"
  by (simp add: stage2optimize_def stage2func_def Let_def penalty_mono)

theorem validity_penalty_witness:
  "stage2optimize one_shot_minimizer always_invalid [7] init_state =
     Inr ((Some (Fin 2000000), None), init_state\<lparr>stage2_runs := [[7]]\<rparr>) \<and>
   stage2func always_invalid [7] \<lparr>value = [2], low = 0, high = 5\<rparr> [3] init_state =
     Inr (Some (Fin 2000000), init_state) \<and>
   fle (penalty (Fin 1)) (penalty (Fin 2))"
proof -
  have p: "penalty (Fin 1) = Fin 2000000" by (simp add: penalty_def float_eval)
  show ?thesis
    using validity_penalty [of always_invalid "[7]" one_shot_minimizer init_state "[3]"
        "\<lparr>value = [2], low = 0, high = 5\<rparr>" "Fin 1" "Fin 2"]
    by (simp add: always_invalid_def init_state_def p)
qed

text \<open>
  C4 as stated asks for a strictly smaller penalty. The errors \<open>2^-30\<close> and \<open>2^-29\<close>
  are binary64 values, the first below the second, and both get the penalty \<open>1e6\<close>:
  their squares are lost when they are added to 1.
\<close>

theorem validity_penalty_not_strict:
  "fl (1 / 2 ^ 30) = 1 / 2 ^ 30 \<and> fl (1 / 2 ^ 29) = 1 / 2 ^ 29 \<and>
   flt (Fin 0) (Fin (1 / 2 ^ 30)) \<and> flt (Fin (1 / 2 ^ 30)) (Fin (1 / 2 ^ 29)) \<and>
   penalty (Fin (1 / 2 ^ 30)) = Fin 1000000 \<and> penalty (Fin (1 / 2 ^ 29)) = Fin 1000000 \<and>
   \<not> flt (penalty (Fin (1 / 2 ^ 30))) (penalty (Fin (1 / 2 ^ 29)))"
  by (simp add: penalty_def float_eval)


end
